theory Spec2Isabelle
  imports Main
begin

section \<open>Python strings\<close>

text \<open>
  A Python \<open>str\<close> is a sequence of Unicode code points, so a string is a list of
  code points (natural numbers), not of bytes: \<open>split\<close> and \<open>strip\<close> look at code
  points. \<open>lit\<close> turns an ASCII literal of the source into such a string.
\<close>

type_synonym codepoint = nat
type_synonym str = "codepoint list"

definition lit :: "string \<Rightarrow> str" where
  "lit cs = map of_char cs"

text \<open>
  \<open>str.isspace\<close> on one code point, which is what \<open>str.split()\<close> and
  \<open>str.strip()\<close> without arguments test: U+0009..U+000D, U+001C..U+001F, U+0020,
  U+0085, U+00A0, U+1680, U+2000..U+200A, U+2028, U+2029, U+202F, U+205F, U+3000.
\<close>

definition isspace :: "codepoint \<Rightarrow> bool" where
  "isspace c \<longleftrightarrow>
     (9 \<le> c \<and> c \<le> 13) \<or> (28 \<le> c \<and> c \<le> 32) \<or> c = 133 \<or> c = 160 \<or> c = 5760 \<or>
     (8192 \<le> c \<and> c \<le> 8202) \<or> c = 8232 \<or> c = 8233 \<or> c = 8239 \<or> c = 8287 \<or>
     c = 12288"

text \<open>\<open>s.strip()\<close>: whitespace removed at both ends.\<close>

definition strip :: "str \<Rightarrow> str" where
  "strip s = rev (dropWhile isspace (rev (dropWhile isspace s)))"

text \<open>
  \<open>s.split()\<close>: skip a run of whitespace, collect a word up to the next whitespace,
  repeat; no empty word is produced.
\<close>

function split :: "str \<Rightarrow> str list" where
  "split s =
     (case dropWhile isspace s of
        [] \<Rightarrow> []
      | c # cs \<Rightarrow>
          takeWhile (\<lambda>x. \<not> isspace x) (c # cs) #
          split (dropWhile (\<lambda>x. \<not> isspace x) (c # cs)))"
  by pat_completeness auto
termination
proof (relation "measure length")
  show "wf (measure length)" by simp
next
  fix s :: str and c cs
  assume d: "dropWhile isspace s = c # cs"
  then have "c \<in> set (dropWhile isspace s)" by simp
  have nsp: "\<not> isspace c"
    using d by (metis hd_dropWhile list.sel(1) list.simps(3))
  have "length (dropWhile (\<lambda>x. \<not> isspace x) (c # cs)) \<le> length cs"
    using nsp by (simp add: length_dropWhile_le)
  also have "length cs < length (c # cs)" by simp
  also have "length (c # cs) \<le> length s"
    using d length_dropWhile_le [of isspace s] by simp
  finally show "(dropWhile (\<lambda>x. \<not> isspace x) (c # cs), s) \<in> measure length"
    by simp
qed

declare split.simps [simp del]

text \<open>\<open>sep.join(ws)\<close>.\<close>

fun join :: "str \<Rightarrow> str list \<Rightarrow> str" where
  "join sep [] = []"
| "join sep [w] = w"
| "join sep (w # v # ws) = w @ sep @ join sep (v # ws)"


text \<open>\<open>str(n)\<close> for a non-negative integer: its decimal digits.\<close>

fun decimal :: "nat \<Rightarrow> str" where
  "decimal n = (if n < 10 then [48 + n] else decimal (n div 10) @ [48 + n mod 10])"

declare decimal.simps [simp del]

section \<open>Python floats\<close>

text \<open>
  A Python \<open>float\<close> is an IEEE 754 double. \<open>Finite s m e\<close> is the double of value
  \<open>(-1)^s * m * 2^e\<close> (\<open>s\<close> the sign bit); the representation is not normalised, and
  \<open>is_double\<close> says which triples are doubles.
\<close>

datatype pyfloat = Finite bool nat int | Infinity bool | NaN

text \<open>\<open>int.bit_length\<close>.\<close>

fun bit_length :: "nat \<Rightarrow> nat" where
  "bit_length n = (if n = 0 then 0 else Suc (bit_length (n div 2)))"

declare bit_length.simps [simp del]

fun is_double :: "pyfloat \<Rightarrow> bool" where
  "is_double (Finite s m e) \<longleftrightarrow> m \<le> 2 ^ 53 \<and> - 1074 \<le> e \<and> int (bit_length m) + e \<le> 1024"
| "is_double (Infinity s) \<longleftrightarrow> True"
| "is_double NaN \<longleftrightarrow> True"

text \<open>The integer nearest to \<open>n / d\<close>, a tie going to the even one (\<open>0 < d\<close>).\<close>

definition round_half_even :: "nat \<Rightarrow> nat \<Rightarrow> nat" where
  "round_half_even n d =
     (let q = n div d; r = n mod d
      in if d < 2 * r \<or> (2 * r = d \<and> odd q) then q + 1 else q)"

text \<open>
  The double nearest to \<open>(-1)^s * m * 2^e\<close>, for any \<open>m\<close> and \<open>e\<close>, as an IEEE
  operation rounds its exact result (round to nearest, ties to even): \<open>k\<close> low bits are
  dropped, as many as leave 53 bits and an exponent of at least -1074; a result of
  \<open>2^1024\<close> or more overflows to infinity.
\<close>

definition round_to_double :: "bool \<Rightarrow> nat \<Rightarrow> int \<Rightarrow> pyfloat" where
  "round_to_double s m e =
     (let k = max (int (bit_length m) - 53) (- 1074 - e);
          m' = (if k \<le> 0 then m else round_half_even m (2 ^ nat k));
          e' = (if k \<le> 0 then e else e + k)
      in if 1024 < int (bit_length m') + e' then Infinity s else Finite s m' e')"

text \<open>\<open>x * 100\<close> for a float \<open>x\<close>: the int 100 becomes the double 100.0.\<close>

definition mul_100 :: "pyfloat \<Rightarrow> pyfloat" where
  "mul_100 x =
     (case x of
        Finite s m e \<Rightarrow> round_to_double s (m * 100) e
      | Infinity s \<Rightarrow> Infinity s
      | NaN \<Rightarrow> NaN)"

text \<open>
  \<open>format(x, '.<d>f')\<close>: the exact value of the double, correctly rounded (ties to
  even) to \<open>d\<close> digits after the point. \<open>n\<close> is the value times \<open>10^d\<close>, rounded.
\<close>

fun frac_digits :: "nat \<Rightarrow> nat \<Rightarrow> str" where
  "frac_digits 0 n = []"
| "frac_digits (Suc d) n = frac_digits d (n div 10) @ [48 + n mod 10]"

definition sign_str :: "bool \<Rightarrow> str" where
  "sign_str s = (if s then lit ''-'' else [])"

definition scaled :: "nat \<Rightarrow> nat \<Rightarrow> int \<Rightarrow> nat" where
  "scaled d m e =
     (if 0 \<le> e then m * 2 ^ nat e * 10 ^ d else round_half_even (m * 10 ^ d) (2 ^ nat (- e)))"

definition format_f :: "nat \<Rightarrow> pyfloat \<Rightarrow> str" where
  "format_f d x =
     (case x of
        NaN \<Rightarrow> lit ''nan''
      | Infinity s \<Rightarrow> sign_str s @ lit ''inf''
      | Finite s m e \<Rightarrow>
          (let n = scaled d m e
           in sign_str s @ decimal (n div 10 ^ d) @
              (if d = 0 then [] else lit ''.'' @ frac_digits d (n mod 10 ^ d))))"


section \<open>Title case\<close>

text \<open>
  \<open>str.title()\<close> reads the Unicode character database of the interpreter, which is
  not part of the program: it is a parameter, \<open>ucd\<close>. \<open>is_cased\<close> and
  \<open>is_case_ignorable\<close> are the properties Cased and Case_Ignorable, \<open>to_lower_full\<close>
  and \<open>to_title_full\<close> the full case mappings (one code point can map to several).
\<close>

record ucd =
  is_cased :: "codepoint \<Rightarrow> bool"
  is_case_ignorable :: "codepoint \<Rightarrow> bool"
  to_lower_full :: "codepoint \<Rightarrow> str"
  to_title_full :: "codepoint \<Rightarrow> str"

text \<open>
  Lower case of a capital sigma (U+03A3): the final form U+03C2 when a cased character
  stands before it and none after it, case-ignorable characters skipped on both sides;
  U+03C3 otherwise. \<open>before\<close> is the text before the sigma, nearest character first.
\<close>

definition handle_capital_sigma :: "ucd \<Rightarrow> str \<Rightarrow> str \<Rightarrow> codepoint" where
  "handle_capital_sigma db before after =
     (case dropWhile (is_case_ignorable db) before of
        [] \<Rightarrow> 963
      | b # _ \<Rightarrow>
          if is_cased db b then
            (case dropWhile (is_case_ignorable db) after of
               [] \<Rightarrow> 962
             | a # _ \<Rightarrow> if is_cased db a then 963 else 962)
          else 963)"

definition lower_ucs4 :: "ucd \<Rightarrow> str \<Rightarrow> codepoint \<Rightarrow> str \<Rightarrow> str" where
  "lower_ucs4 db before c after =
     (if c = 931 then [handle_capital_sigma db before after] else to_lower_full db c)"

text \<open>
  The loop of \<open>str.title()\<close>: a character that follows a cased character is lowered,
  any other is title-cased.
\<close>

fun do_title :: "ucd \<Rightarrow> str \<Rightarrow> bool \<Rightarrow> str \<Rightarrow> str" where
  "do_title db before previous_is_cased [] = []"
| "do_title db before previous_is_cased (c # after) =
     (if previous_is_cased then lower_ucs4 db before c after else to_title_full db c) @
     do_title db (c # before) (is_cased db c) after"

definition title :: "ucd \<Rightarrow> str \<Rightarrow> str" where
  "title db s = do_title db [] False s"

text \<open>
  The character database as far as ASCII goes: the letters are cased and map to each
  other, every other code point is uncased and maps to itself. It stands for the
  interpreter's database on the ASCII labels of the examples.
\<close>

definition ascii_upper :: "codepoint \<Rightarrow> bool" where
  "ascii_upper c \<longleftrightarrow> 65 \<le> c \<and> c \<le> 90"

definition ascii_lower :: "codepoint \<Rightarrow> bool" where
  "ascii_lower c \<longleftrightarrow> 97 \<le> c \<and> c \<le> 122"

definition ascii_ucd :: ucd where
  "ascii_ucd =
     \<lparr> is_cased = (\<lambda>c. ascii_upper c \<or> ascii_lower c),
       is_case_ignorable = (\<lambda>c. c = 39 \<or> c = 46 \<or> c = 58 \<or> c = 94 \<or> c = 96),
       to_lower_full = (\<lambda>c. [if ascii_upper c then c + 32 else c]),
       to_title_full = (\<lambda>c. [if ascii_lower c then c - 32 else c]) \<rparr>"

section \<open>The response of the vision service\<close>

text \<open>
  \<open>response.json()\<close> is a dict. The keys the program reads are \<open>description\<close>
  (a dict with the key \<open>captions\<close>), \<open>objects\<close> and \<open>tags\<close>; any of them can be
  missing, which is \<open>None\<close> here. The values that are present have the shape the
  service documents: lists of dicts with a string and a float each (a JSON \<open>null\<close>
  or a value of another type is outside this type).
\<close>

record caption =
  cap_text :: str
  cap_confidence :: pyfloat

record detected_object =
  obj_object :: str
  obj_confidence :: pyfloat

record tag =
  tag_name :: str
  tag_confidence :: pyfloat

record description_dict =
  captions :: "caption list option"

record analysis_result =
  description :: "description_dict option"
  objects :: "detected_object list option"
  tags :: "tag list option"

datatype py_error =
    KeyError
  | IndexError
  | UnidentifiedImageError
  | OSError
  | RequestException
  | JSONDecodeError

text \<open>\<open>d.get(key, default)\<close>, \<open>d.get(key)\<close> in a condition, \<open>d[key]\<close> and \<open>xs[0]\<close>.\<close>

definition get_default :: "'a option \<Rightarrow> 'a \<Rightarrow> 'a" where
  "get_default v d = (case v of None \<Rightarrow> d | Some x \<Rightarrow> x)"

definition truthy :: "'a list option \<Rightarrow> bool" where
  "truthy v = (case v of None \<Rightarrow> False | Some xs \<Rightarrow> xs \<noteq> [])"

definition subscript :: "'a option \<Rightarrow> py_error + 'a" where
  "subscript v = (case v of None \<Rightarrow> Inl KeyError | Some x \<Rightarrow> Inr x)"

definition item0 :: "'a list \<Rightarrow> py_error + 'a" where
  "item0 xs = (case xs of [] \<Rightarrow> Inl IndexError | x # _ \<Rightarrow> Inr x)"

definition bind :: "py_error + 'a \<Rightarrow> ('a \<Rightarrow> py_error + 'b) \<Rightarrow> py_error + 'b" where
  "bind r f = (case r of Inl e \<Rightarrow> Inl e | Inr x \<Rightarrow> f x)"


section \<open>The page\<close>

text \<open>
  What the Streamlit calls put on the page, in order. The HTML around the
  interpolated values is presentation and is left out: \<open>CaptionCard t c\<close> is the card
  of lines 156-161 with caption text \<open>t\<close> and confidence string \<open>c\<close>,
  \<open>SummaryParagraph p\<close> the paragraph element of lines 190-193, \<open>ObjectCard k t c\<close> the
  card of lines 206-211 written into column \<open>k\<close>, and \<open>TagChips\<close> the string
  \<open>tags_html\<close> of lines 221-228, one pair of name and percentage for each span.
  \<open>Style\<close>, \<open>Header\<close> and \<open>Footer\<close> are the fixed blocks of lines 28-93 and 237-242.
\<close>

datatype ui =
    Style
  | Header
  | Footer
  | StMarkdown str
  | StImage
  | StWarning str
  | StError str
  | CaptionCard str str
  | SummaryParagraph str
  | ObjectCard nat str str
  | TagChips "(str \<times> str) list"
  | RawResponse analysis_result

subsection \<open>The narrative paragraph (lines 164-187)\<close>

definition details_parts :: "str list \<Rightarrow> str list \<Rightarrow> str list" where
  "details_parts objs tgs =
     (if objs \<noteq> [] then [lit ''It seems to show '' @ join (lit '', '') objs] else []) @
     (if tgs \<noteq> [] then [lit ''The scene relates to '' @ join (lit '', '') tgs] else [])"

definition base_sentence :: "caption \<Rightarrow> str" where
  "base_sentence cap = lit ''The AI thinks this image is about '' @ cap_text cap @ lit ''.''"

definition extra_sentence :: "str list \<Rightarrow> str" where
  "extra_sentence parts =
     (if parts \<noteq> [] then lit '' '' @ join (lit ''. '') parts @ lit ''.'' else [])"

text \<open>Line 183: the paragraph as built, before the cap on its words.\<close>

definition built_paragraph :: "caption \<Rightarrow> analysis_result \<Rightarrow> str" where
  "built_paragraph cap result =
     (let objs = take 5 (map obj_object (get_default (objects result) []));
          tgs = take 5 (map tag_name (get_default (tags result) []))
      in strip (base_sentence cap @ extra_sentence (details_parts objs tgs)))"

text \<open>Lines 185-187: the cap.\<close>

definition cap_words :: "str \<Rightarrow> str" where
  "cap_words p =
     (let words = split p
      in if 100 < length words then join (lit '' '') (take 100 words) @ lit ''...'' else p)"

text \<open>The variable \<open>paragraph\<close> as lines 190-193 show it.\<close>

definition capped_paragraph :: "caption \<Rightarrow> analysis_result \<Rightarrow> str" where
  "capped_paragraph cap result = cap_words (built_paragraph cap result)"

subsection \<open>The three sections (lines 149-231)\<close>

text \<open>
  The fragment \<open>{confidence*100:.1f}%\<close> of the f-strings of lines 159 and 209
  (\<open>d = 1\<close>), and \<open>{confidence*100:.0f}%\<close> of line 225 (\<open>d = 0\<close>).
\<close>

definition percent :: "nat \<Rightarrow> pyfloat \<Rightarrow> str" where
  "percent d confidence = format_f d (mul_100 confidence) @ lit ''%''"

definition summary_heading :: str where
  "summary_heading = lit ''#### '' @ [128466, 65039] @ lit '' Summary (within 100 words)''"

definition description_section :: "analysis_result \<Rightarrow> py_error + ui list" where
  "description_section result =
     (if truthy (captions (get_default (description result) \<lparr>captions = None\<rparr>)) then
        bind (subscript (description result)) (\<lambda>d.
        bind (subscript (captions d)) (\<lambda>cs.
        bind (item0 cs) (\<lambda>cap.
          Inr [CaptionCard (cap_text cap) (percent 1 (cap_confidence cap)),
               StMarkdown summary_heading,
               SummaryParagraph (capped_paragraph cap result)])))
      else Inr [StWarning (lit ''No description detected'')])"

text \<open>The loop of lines 204-211; \<open>i\<close> is the index \<open>enumerate\<close> counts.\<close>

fun object_cards :: "ucd \<Rightarrow> nat \<Rightarrow> detected_object list \<Rightarrow> ui list" where
  "object_cards db i [] = []"
| "object_cards db i (obj # rest) =
     ObjectCard (i mod 2) (title db (obj_object obj)) (percent 1 (obj_confidence obj)) #
     object_cards db (Suc i) rest"

definition objects_section :: "ucd \<Rightarrow> analysis_result \<Rightarrow> py_error + ui list" where
  "objects_section db result =
     (if truthy (objects result) then
        bind (subscript (objects result)) (\<lambda>objs. Inr (object_cards db 0 objs))
      else Inr [StWarning (lit ''No objects detected'')])"

text \<open>The loop of lines 222-227; \<open>acc\<close> is \<open>tags_html\<close> so far.\<close>

fun tags_html :: "(str \<times> str) list \<Rightarrow> tag list \<Rightarrow> (str \<times> str) list" where
  "tags_html acc [] = acc"
| "tags_html acc (t # rest) =
     tags_html (acc @ [(tag_name t, percent 0 (tag_confidence t))]) rest"

definition tags_section :: "analysis_result \<Rightarrow> py_error + ui list" where
  "tags_section result =
     (if truthy (tags result) then
        bind (subscript (tags result)) (\<lambda>tgs. Inr [TagChips (tags_html [] tgs)])
      else Inr [StWarning (lit ''No tags detected'')])"

definition section_open :: ui where
  "section_open = StMarkdown (lit ''<div class=\"section\">'')"

definition section_close :: ui where
  "section_close = StMarkdown (lit ''</div>'')"

text \<open>
  The three sections in the order of the script, each between its opening markup and
  heading and its closing markup.
\<close>

definition description_heading :: str where
  "description_heading = lit ''## '' @ [128196] @ lit '' Image Description''"

definition objects_heading :: str where
  "objects_heading = lit ''## '' @ [127919] @ lit '' Detected Objects''"

definition tags_heading :: str where
  "tags_heading = lit ''## '' @ [127991, 65039] @ lit '' Image Tags''"

definition layout :: "ui list \<Rightarrow> ui list \<Rightarrow> ui list \<Rightarrow> ui list" where
  "layout d os ts =
     [section_open, StMarkdown description_heading] @ d @ [section_close] @
     [section_open, StMarkdown objects_heading] @ os @ [section_close] @
     [section_open, StMarkdown tags_heading] @ ts @ [section_close]"

definition summarize :: "ucd \<Rightarrow> analysis_result \<Rightarrow> py_error + ui list" where
  "summarize db result =
     bind (description_section result) (\<lambda>d.
     bind (objects_section db result) (\<lambda>os.
     bind (tags_section result) (\<lambda>ts.
       Inr (layout d os ts))))"

section \<open>From the upload to the page\<close>

text \<open>
  Pillow and the HTTP client are libraries, not code of the program: they are
  parameters. \<open>image_open\<close> is \<open>Image.open\<close>, \<open>convert_rgb\<close> is \<open>convert("RGB")\<close>
  and \<open>save_jpeg\<close> is \<open>save(buf, format="JPEG")\<close> followed by \<open>buf.getvalue()\<close>;
  each can raise. The program catches no exception, so the first one raised ends
  the run.
\<close>

type_synonym bytes = "nat list"

record 'img pil =
  image_open :: "bytes \<Rightarrow> py_error + 'img"
  convert_rgb :: "'img \<Rightarrow> py_error + 'img"
  save_jpeg :: "'img \<Rightarrow> py_error + bytes"

text \<open>Lines 121-125, the step the specification calls \<open>normalize\<close>.\<close>

definition normalize_upload :: "'img pil \<Rightarrow> bytes \<Rightarrow> py_error + bytes" where
  "normalize_upload lib uploaded_file =
     bind (image_open lib uploaded_file) (\<lambda>img.
     bind (convert_rgb lib img) (\<lambda>pil_img.
       save_jpeg lib pil_img))"

text \<open>
  What the program relies on Pillow for. \<open>mode_of\<close> and \<open>format_of\<close> are the
  attributes \<open>mode\<close> and \<open>format\<close> of an image. The contract: an image that was
  opened from a JPEG or PNG file, of whatever mode, converts to an image of mode RGB;
  and an image of mode RGB is saved as JPEG to bytes that open again as a JPEG image
  of mode RGB whose pixels decode. This is a condition on the library, not on the
  program.
\<close>

datatype color_mode = Palette | Grey | GreyAlpha | RGBA | RGB | OtherMode

datatype image_format = JPEG | PNG | OtherFormat

definition pil_contract ::
  "'img pil \<Rightarrow> ('img \<Rightarrow> color_mode) \<Rightarrow> ('img \<Rightarrow> image_format) \<Rightarrow> bool" where
  "pil_contract lib mode_of format_of \<longleftrightarrow>
     (\<forall>img. format_of img = JPEG \<or> format_of img = PNG \<longrightarrow>
        (\<exists>pil_img. convert_rgb lib img = Inr pil_img \<and> mode_of pil_img = RGB)) \<and>
     (\<forall>pil_img. mode_of pil_img = RGB \<longrightarrow>
        (\<exists>out decoded pixels.
           save_jpeg lib pil_img = Inr out \<and> image_open lib out = Inr decoded \<and>
           format_of decoded = JPEG \<and> mode_of decoded = RGB \<and>
           convert_rgb lib decoded = Inr pixels \<and> mode_of pixels = RGB))"

record request =
  url :: str
  subscription_key :: str
  visual_features :: str
  body :: bytes
  timeout_seconds :: nat

record response =
  status_code :: int
  response_text :: str
  response_json :: "py_error + analysis_result"

text \<open>\<open>s.rstrip('/')\<close>.\<close>

definition rstrip_slash :: "str \<Rightarrow> str" where
  "rstrip_slash s = rev (dropWhile (\<lambda>c. c = 47) (rev s))"

text \<open>Lines 127-140: the request.\<close>

definition build_request :: "str \<Rightarrow> str \<Rightarrow> bytes \<Rightarrow> request" where
  "build_request endpoint api_key image_bytes =
     \<lparr> url = rstrip_slash endpoint @ lit ''/vision/v3.2/analyze'',
       subscription_key = api_key,
       visual_features = lit ''Description,Objects,Tags'',
       body = image_bytes,
       timeout_seconds = 30 \<rparr>"

text \<open>
  How a run of the script ends: at its last line, at \<open>st.stop()\<close>, or with an
  exception nothing catches. \<open>shown\<close> is what the run has put on the page.
\<close>

datatype ending = Finished | Stopped | Raised py_error

record page =
  shown :: "ui list"
  ending :: ending

text \<open>
  Lines 117-235: what a click on the button does. \<open>post\<close> is \<open>requests.post\<close>,
  which raises when the network fails or the 30 seconds pass, and \<open>response_json\<close>
  is what \<open>response.json()\<close> returns or raises. Nothing is on the page before the
  request has been answered.
\<close>

definition analyze ::
  "'img pil \<Rightarrow> (request \<Rightarrow> py_error + response) \<Rightarrow> ucd \<Rightarrow> str \<Rightarrow> str \<Rightarrow> bytes \<Rightarrow> page" where
  "analyze lib post db endpoint api_key uploaded_file =
     (case normalize_upload lib uploaded_file of
        Inl e \<Rightarrow> \<lparr>shown = [], ending = Raised e\<rparr>
      | Inr image_bytes \<Rightarrow>
          (case post (build_request endpoint api_key image_bytes) of
             Inl e \<Rightarrow> \<lparr>shown = [], ending = Raised e\<rparr>
           | Inr response \<Rightarrow>
               if status_code response \<noteq> 200 then
                 \<lparr>shown = [StError (response_text response)], ending = Stopped\<rparr>
               else
                 (case response_json response of
                    Inl e \<Rightarrow> \<lparr>shown = [], ending = Raised e\<rparr>
                  | Inr result \<Rightarrow>
                      (case summarize db result of
                         Inl e \<Rightarrow> \<lparr>shown = [], ending = Raised e\<rparr>
                       | Inr views \<Rightarrow>
                           \<lparr>shown = views @ [RawResponse result], ending = Finished\<rparr>))))"

text \<open>
  The whole script, run once: the environment (\<open>None\<close> for a variable that is not
  set), the uploaded file if there is one, and whether the button was clicked. The
  widgets themselves (the uploader, the button) are not listed on the page.
  \<open>Image.open\<close> reads the header of the file only; \<open>st.image\<close> (line 111) has to
  decode the pixels, the step of \<open>convert\<close> that can fail on a file that was opened,
  and raises what the decoding raises, with the markup of line 110 already on the
  page.
\<close>

definition credentials :: "str option \<Rightarrow> str option \<Rightarrow> (str \<times> str) option" where
  "credentials endpoint api_key =
     (case endpoint of
        None \<Rightarrow> None
      | Some e \<Rightarrow>
          (case api_key of
             None \<Rightarrow> None
           | Some k \<Rightarrow> if e = [] \<or> k = [] then None else Some (e, k)))"

definition app ::
  "'img pil \<Rightarrow> (request \<Rightarrow> py_error + response) \<Rightarrow> ucd \<Rightarrow> str option \<Rightarrow> str option \<Rightarrow>
   bytes option \<Rightarrow> bool \<Rightarrow> page" where
  "app lib post db endpoint api_key uploaded_file button =
     (case credentials endpoint api_key of
        None \<Rightarrow>
          \<lparr>shown = [Style, Header,
                    StError (lit ''Azure Computer Vision credentials missing in .env'')],
           ending = Stopped\<rparr>
      | Some (e, k) \<Rightarrow>
          (case uploaded_file of
             None \<Rightarrow>
               \<lparr>shown = [Style, Header, StMarkdown (lit ''## Upload Image''), Footer],
                ending = Finished\<rparr>
           | Some file \<Rightarrow>
               (case image_open lib file of
                  Inl err \<Rightarrow>
                    \<lparr>shown = [Style, Header, StMarkdown (lit ''## Upload Image'')],
                     ending = Raised err\<rparr>
                | Inr img \<Rightarrow>
                    (case convert_rgb lib img of
                       Inl err \<Rightarrow>
                         \<lparr>shown = [Style, Header, StMarkdown (lit ''## Upload Image''),
                                   StMarkdown (lit ''<div class=\"image-box\">'')],
                          ending = Raised err\<rparr>
                     | Inr decoded \<Rightarrow>
                         (let upload =
                                [Style, Header, StMarkdown (lit ''## Upload Image''),
                                 StMarkdown (lit ''<div class=\"image-box\">''), StImage,
                                 StMarkdown (lit ''</div>''), StMarkdown (lit ''<br>'')]
                          in if button then
                               (let p = analyze lib post db e k file
                                in if ending p = Finished
                                   then \<lparr>shown = upload @ shown p @ [Footer],
                                         ending = Finished\<rparr>
                                   else \<lparr>shown = upload @ shown p, ending = ending p\<rparr>)
                             else \<lparr>shown = upload @ [Footer], ending = Finished\<rparr>)))))"


section \<open>The specification's side, and inputs to run the program on\<close>

text \<open>
  The narrative as the specification words it: the base sentence, then a clause for
  the objects if there are any, then a clause for the tags if there are any, joined
  with a period and a space, and a final period.
\<close>

definition narrative_spec :: "str \<Rightarrow> str list \<Rightarrow> str list \<Rightarrow> str" where
  "narrative_spec caption_text objs tgs =
     join (lit ''. '')
       ([lit ''The AI thinks this image is about '' @ caption_text] @
        (if objs = [] then [] else [lit ''It seems to show '' @ join (lit '', '') objs]) @
        (if tgs = [] then [] else [lit ''The scene relates to '' @ join (lit '', '') tgs])) @
     lit ''.''"

text \<open>A response in which every key that is missing holds an empty list instead.\<close>

definition fill_absent :: "analysis_result \<Rightarrow> analysis_result" where
  "fill_absent result =
     \<lparr> description =
         Some (case description result of None \<Rightarrow> \<lparr>captions = Some []\<rparr> | Some d \<Rightarrow> d),
       objects = Some (case objects result of None \<Rightarrow> [] | Some objs \<Rightarrow> objs),
       tags = Some (case tags result of None \<Rightarrow> [] | Some tgs \<Rightarrow> tgs) \<rparr>"

text \<open>
  The example of the specification. The confidences are the doubles nearest to 0.91,
  0.95, 0.80, 0.99 and 0.77.
\<close>

definition cat_caption :: caption where
  "cat_caption =
     \<lparr>cap_text = lit ''a cat sitting on a chair'',
      cap_confidence = Finite False 8196551321814303 (- 53)\<rparr>"

definition cat_result :: analysis_result where
  "cat_result =
     \<lparr> description = Some \<lparr>captions = Some [cat_caption]\<rparr>,
       objects = Some
         [\<lparr>obj_object = lit ''cat'', obj_confidence = Finite False 4278419646001971 (- 52)\<rparr>,
          \<lparr>obj_object = lit ''chair'', obj_confidence = Finite False 3602879701896397 (- 52)\<rparr>],
       tags = Some
         [\<lparr>tag_name = lit ''animal'', tag_confidence = Finite False 4458563631096791 (- 52)\<rparr>,
          \<lparr>tag_name = lit ''furniture'', tag_confidence = Finite False 1733885856537641 (- 51)\<rparr>] \<rparr>"

text \<open>The same response with a second caption, of higher confidence (0.99), behind the first.\<close>

definition two_captions :: analysis_result where
  "two_captions =
     cat_result
       \<lparr>description := Some \<lparr>captions = Some
          [cat_caption,
           \<lparr>cap_text = lit ''a dog'', cap_confidence = Finite False 4458563631096791 (- 52)\<rparr>]\<rparr>\<rparr>"

text \<open>The response with none of the three keys.\<close>

definition empty_result :: analysis_result where
  "empty_result = \<lparr>description = None, objects = None, tags = None\<rparr>"

text \<open>
  A stand-in for Pillow on which the pipeline can be run: an image is its bytes, no
  bytes at all are not an image, and nothing else fails. And a service that refuses
  every request with status 401.
\<close>

definition toy_pil :: "bytes pil" where
  "toy_pil =
     \<lparr> image_open = (\<lambda>b. if b = [] then Inl UnidentifiedImageError else Inr b),
       convert_rgb = Inr,
       save_jpeg = Inr \<rparr>"

text \<open>
  A stand-in for Pillow that has formats and modes: a file is a byte for the format
  (0 for JPEG, 1 for PNG), a byte for the mode (0 palette, 1 grey, 2 grey with alpha,
  3 RGBA, 4 RGB) and the pixel data; anything else is not an image. Converting sets
  the mode to RGB; only an image of mode RGB can be saved as JPEG, and saving loses
  the lowest bit of every pixel byte.
\<close>

type_synonym toy_image = "image_format \<times> color_mode \<times> bytes"

definition toy_format :: "nat \<Rightarrow> image_format option" where
  "toy_format b = (if b = 0 then Some JPEG else if b = 1 then Some PNG else None)"

definition toy_mode :: "nat \<Rightarrow> color_mode option" where
  "toy_mode b =
     (if b = 0 then Some Palette else if b = 1 then Some Grey
      else if b = 2 then Some GreyAlpha else if b = 3 then Some RGBA
      else if b = 4 then Some RGB else None)"

fun toy_open :: "bytes \<Rightarrow> py_error + toy_image" where
  "toy_open (f # m # pixels) =
     (case toy_format f of
        None \<Rightarrow> Inl UnidentifiedImageError
      | Some fmt \<Rightarrow>
          (case toy_mode m of
             None \<Rightarrow> Inl UnidentifiedImageError
           | Some md \<Rightarrow> Inr (fmt, md, pixels)))"
| "toy_open _ = Inl UnidentifiedImageError"

definition toy_codec :: "toy_image pil" where
  "toy_codec =
     \<lparr> image_open = toy_open,
       convert_rgb = (\<lambda>(fmt, md, pixels). Inr (fmt, RGB, pixels)),
       save_jpeg = (\<lambda>(fmt, md, pixels).
         if md = RGB then Inr (0 # 4 # map (\<lambda>b. 2 * (b div 2)) pixels) else Inl OSError) \<rparr>"

definition toy_mode_of :: "toy_image \<Rightarrow> color_mode" where
  "toy_mode_of img = fst (snd img)"

definition toy_format_of :: "toy_image \<Rightarrow> image_format" where
  "toy_format_of img = fst img"

definition denied :: response where
  "denied =
     \<lparr>status_code = 401, response_text = lit ''Access denied'',
      response_json = Inl JSONDecodeError\<rparr>"

text \<open>
  The example with six objects, the sixth of any label; the confidences rise along
  the list.
\<close>

definition six_objects :: "str \<Rightarrow> analysis_result" where
  "six_objects sixth =
     cat_result
       \<lparr>objects := Some
          [\<lparr>obj_object = lit ''cat'', obj_confidence = Finite False 1 (- 6)\<rparr>,
           \<lparr>obj_object = lit ''chair'', obj_confidence = Finite False 1 (- 5)\<rparr>,
           \<lparr>obj_object = lit ''rug'', obj_confidence = Finite False 1 (- 4)\<rparr>,
           \<lparr>obj_object = lit ''lamp'', obj_confidence = Finite False 1 (- 3)\<rparr>,
           \<lparr>obj_object = lit ''wall'', obj_confidence = Finite False 1 (- 2)\<rparr>,
           \<lparr>obj_object = sixth, obj_confidence = Finite False 1 (- 1)\<rparr>]\<rparr>"

text \<open>The double nearest to 0.873.\<close>

definition c_0_873 :: pyfloat where
  "c_0_873 = Finite False 3931642474694443 (- 52)"

text \<open>A caption of 94 words: with the seven words before it, a paragraph of 101.\<close>

definition long_caption :: caption where
  "long_caption =
     \<lparr>cap_text = lit ''a a a a a a a a a a a a a a a a a a a a a a a a a a a a a a a a a a a a a a a a a a a a a a a a a a a a a a a a a a a a a a a a a a a a a a a a a a a a a a a a a a a a a a a a a a a a a a'',
      cap_confidence = Finite False 1 (- 1)\<rparr>"

definition long_result :: analysis_result where
  "long_result =
     \<lparr>description = Some \<lparr>captions = Some [long_caption]\<rparr>, objects = None, tags = None\<rparr>"

section \<open>Splitting and joining\<close>

lemma split_Nil: "split [] = []"
  by (simp add: split.simps)

lemma split_space: "isspace c \<Longrightarrow> split (c # s) = split s"
  by (simp add: split.simps [of "c # s"] split.simps [of s])

lemma split_nonspace:
  assumes "s \<noteq> []" and "\<not> isspace (hd s)"
  shows "split s = takeWhile (\<lambda>x. \<not> isspace x) s # split (dropWhile (\<lambda>x. \<not> isspace x) s)"
proof -
  obtain a as where s: "s = a # as" using assms(1) by (cases s) auto
  have d: "dropWhile isspace (a # as) = a # as"
    using assms(2) s by simp
  show ?thesis
    unfolding s by (subst split.simps) (simp only: d list.case)
qed

lemma split_word_space:
  assumes "w \<noteq> []" and "\<forall>x\<in>set w. \<not> isspace x" and "isspace c"
  shows "split (w @ c # s) = w # split s"
proof -
  have h: "\<not> isspace (hd (w @ c # s))" using assms(1,2) by simp
  have t: "takeWhile (\<lambda>x. \<not> isspace x) (w @ c # s) = w"
    using assms(2,3) by (simp add: takeWhile_append2)
  have r: "dropWhile (\<lambda>x. \<not> isspace x) (w @ c # s) = c # s"
    using assms(2,3) by (simp add: dropWhile_append2)
  have "split (w @ c # s) = w # split (c # s)"
    using split_nonspace [OF _ h] t r by simp
  then show ?thesis
    using split_space [OF assms(3)] by simp
qed

lemma split_word:
  assumes "w \<noteq> []" and "\<forall>x\<in>set w. \<not> isspace x"
  shows "split w = [w]"
proof -
  have h: "\<not> isspace (hd w)" using assms by simp
  have t: "takeWhile (\<lambda>x. \<not> isspace x) w = w"
    using assms(2) by (simp add: takeWhile_eq_all_conv)
  have r: "dropWhile (\<lambda>x. \<not> isspace x) w = []"
    using assms(2) by simp
  show ?thesis
    using split_nonspace [OF assms(1) h] t r split_Nil by simp
qed

lemma isspace_32: "isspace 32" by (simp add: isspace_def)

lemma lit_space: "lit '' '' = [32]" by (simp add: lit_def)

lemma split_join:
  "\<forall>w\<in>set ws. w \<noteq> [] \<and> (\<forall>x\<in>set w. \<not> isspace x) \<Longrightarrow> split (join [32] ws) = ws"
proof (induction "[32::nat]" ws rule: join.induct)
  case 1
  then show ?case by (simp add: split_Nil)
next
  case (2 w)
  then show ?case by (simp add: split_word)
next
  case (3 w v ws)
  then show ?case by (simp add: split_word_space isspace_32)
qed

lemma split_words: "w \<in> set (split s) \<Longrightarrow> w \<noteq> [] \<and> (\<forall>x\<in>set w. \<not> isspace x)"
proof (induction s arbitrary: w rule: split.induct)
  case (1 s)
  show ?case
  proof (cases "dropWhile isspace s")
    case Nil
    with "1.prems" show ?thesis by (simp add: split.simps [of s])
  next
    case (Cons c cs)
    have nsp: "\<not> isspace c"
      using Cons by (metis hd_dropWhile list.sel(1) list.simps(3))
    from "1.prems" Cons
    consider "w = takeWhile (\<lambda>x. \<not> isspace x) (c # cs)"
      | "w \<in> set (split (dropWhile (\<lambda>x. \<not> isspace x) (c # cs)))"
      by (auto simp: split.simps [of s])
    then show ?thesis
    proof cases
      case 1
      then show ?thesis using nsp by (auto dest: set_takeWhileD)
    next
      case 2
      then show ?thesis using "1.IH" [OF Cons] by blast
    qed
  qed
qed

lemma join_append_last:
  "ws \<noteq> [] \<Longrightarrow> join sep ws @ x = join sep (butlast ws @ [last ws @ x])"
  by (induction sep ws rule: join.induct) auto



lemma split_Cons:
  "split (c # s) =
     (if isspace c then split s
      else takeWhile (\<lambda>x. \<not> isspace x) (c # s) # split (dropWhile (\<lambda>x. \<not> isspace x) (c # s)))"
  using split_space [of c s] split_nonspace [of "c # s"] by simp

lemma long_paragraph_words:
  "100 < length (split (built_paragraph long_caption long_result))"
  by (simp add: built_paragraph_def long_caption_def long_result_def base_sentence_def
    extra_sentence_def details_parts_def get_default_def strip_def lit_def split_Cons split_Nil isspace_def)

lemma lit_dots: "lit ''...'' = [46, 46, 46]" by (simp add: lit_def)

lemma not_isspace_46: "\<not> isspace 46" by (simp add: isspace_def)

lemma split_cap_words:
  assumes "100 < length (split p)"
  shows "split (cap_words p) = take 99 (split p) @ [split p ! 99 @ lit ''...'']"
proof -
  let ?ws = "take 100 (split p)"
  have len: "length ?ws = 100" using assms by simp
  then have ne: "?ws \<noteq> []" by auto
  have bl: "butlast ?ws = take 99 (split p)"
    using assms by (simp add: butlast_take)
  have la: "last ?ws = split p ! 99"
    using assms ne by (simp add: last_conv_nth)
  have "cap_words p = join [32] ?ws @ lit ''...''"
    using assms by (simp add: cap_words_def Let_def lit_space)
  also have "\<dots> = join [32] (take 99 (split p) @ [split p ! 99 @ lit ''...''])"
    using join_append_last [OF ne] bl la by simp
  finally have eq: "cap_words p = join [32] (take 99 (split p) @ [split p ! 99 @ lit ''...''])" .
  have w99: "split p ! 99 \<in> set (split p)" using assms by simp
  have "\<forall>w\<in>set (take 99 (split p) @ [split p ! 99 @ lit ''...'']).
          w \<noteq> [] \<and> (\<forall>x\<in>set w. \<not> isspace x)"
    using split_words [of _ p] split_words [OF w99] not_isspace_46
    by (auto simp: lit_dots dest: in_set_takeD)
  then show ?thesis
    unfolding eq by (rule split_join)
qed


lemma strip_id:
  assumes "s \<noteq> []" and "\<not> isspace (hd s)" and "\<not> isspace (last s)"
  shows "strip s = s"
proof -
  have "dropWhile isspace s = s"
    using assms(1,2) by (simp add: dropWhile_eq_self_iff)
  moreover have "dropWhile isspace (rev s) = rev s"
    using assms(1,3) by (simp add: dropWhile_eq_self_iff hd_rev)
  ultimately show ?thesis by (simp add: strip_def)
qed

lemma narrative_eq:
  "base_sentence cap @ extra_sentence (details_parts objs tgs) =
   narrative_spec (cap_text cap) objs tgs"
  by (simp add: base_sentence_def extra_sentence_def details_parts_def narrative_spec_def lit_def)

lemma built_paragraph_spec:
  "built_paragraph cap result =
   narrative_spec (cap_text cap)
     (map obj_object (take 5 (get_default (objects result) [])))
     (map tag_name (take 5 (get_default (tags result) [])))"
proof -
  let ?objs = "take 5 (map obj_object (get_default (objects result) []))"
  let ?tgs = "take 5 (map tag_name (get_default (tags result) []))"
  let ?s = "base_sentence cap @ extra_sentence (details_parts ?objs ?tgs)"
  have ne: "?s \<noteq> []" by (simp add: base_sentence_def lit_def)
  have h: "\<not> isspace (hd ?s)" by (simp add: base_sentence_def lit_def isspace_def)
  have "last ?s = 46"
    unfolding narrative_eq by (simp add: narrative_spec_def lit_def)
  then have l: "\<not> isspace (last ?s)" by (simp add: isspace_def)
  have "built_paragraph cap result = ?s"
    using strip_id [OF ne h l] by (simp add: built_paragraph_def Let_def)
  then show ?thesis by (simp add: narrative_eq take_map)
qed

lemma description_section_caption:
  assumes "description result = Some d" and "captions d = Some (cap # rest)"
  shows "description_section result =
           Inr [CaptionCard (cap_text cap) (percent 1 (cap_confidence cap)),
                StMarkdown summary_heading,
                SummaryParagraph (capped_paragraph cap result)]"
  using assms
  by (simp add: description_section_def get_default_def truthy_def subscript_def item0_def bind_def)

lemma description_section_none:
  assumes "\<not> truthy (captions (get_default (description result) \<lparr>captions = None\<rparr>))"
  shows "description_section result = Inr [StWarning (lit ''No description detected'')]"
  using assms by (simp add: description_section_def)

lemma description_section_total: "\<exists>v. description_section result = Inr v"
proof (cases "truthy (captions (get_default (description result) \<lparr>captions = None\<rparr>))")
  case True
  then obtain d cap rest where "description result = Some d" and "captions d = Some (cap # rest)"
    by (auto simp: truthy_def get_default_def neq_Nil_conv split: option.splits)
  then show ?thesis by (simp add: description_section_caption)
next
  case False
  then show ?thesis by (simp add: description_section_none)
qed

lemma objects_section_total: "\<exists>v. objects_section db result = Inr v"
  by (auto simp: objects_section_def truthy_def subscript_def bind_def split: option.splits)

lemma tags_section_total: "\<exists>v. tags_section result = Inr v"
  by (auto simp: tags_section_def truthy_def subscript_def bind_def split: option.splits)

lemma object_cards_map:
  "object_cards db i objs =
   map (\<lambda>(j, obj). ObjectCard (j mod 2) (title db (obj_object obj)) (percent 1 (obj_confidence obj)))
     (enumerate i objs)"
  by (induction objs arbitrary: i) simp_all

lemma tags_html_map:
  "tags_html acc tgs = acc @ map (\<lambda>t. (tag_name t, percent 0 (tag_confidence t))) tgs"
  by (induction tgs arbitrary: acc) simp_all

section \<open>The narrative and the three sections\<close>

lemma summarize_layout:
  assumes "description_section result = Inr d" and "objects_section db result = Inr os"
    and "tags_section result = Inr ts"
  shows "summarize db result = Inr (layout d os ts)"
  using assms by (simp add: summarize_def bind_def)

lemma summarize_total: "\<exists>d os ts. summarize db result = Inr (layout d os ts)"
  using description_section_total [of result] objects_section_total [of db result]
    tags_section_total [of result] summarize_layout [of result _ db]
  by blast

lemma objects_section_listing:
  assumes "objects result = Some objs" and "objs \<noteq> []"
  shows "objects_section db result =
           Inr (map (\<lambda>(i, obj). ObjectCard (i mod 2) (title db (obj_object obj))
                                  (percent 1 (obj_confidence obj)))
                  (enumerate 0 objs))"
  using assms
  by (simp add: objects_section_def truthy_def subscript_def bind_def object_cards_map)

lemma tags_section_listing:
  assumes "tags result = Some tgs" and "tgs \<noteq> []"
  shows "tags_section result =
           Inr [TagChips (map (\<lambda>t. (tag_name t, percent 0 (tag_confidence t))) tgs)]"
  using assms
  by (simp add: tags_section_def truthy_def subscript_def bind_def tags_html_map)

section \<open>Floats\<close>

text \<open>What \<open>round_to_double\<close> returns is a double, and a double is left as it is.\<close>

lemma bit_length_le: "bit_length m \<le> b \<longleftrightarrow> m < 2 ^ b"
proof (induction m arbitrary: b rule: bit_length.induct)
  case (1 n)
  show ?case
  proof (cases "n = 0")
    case True
    then show ?thesis by (simp add: bit_length.simps)
  next
    case False
    show ?thesis
    proof (cases b)
      case 0
      with False show ?thesis by (simp add: bit_length.simps [of n])
    next
      case (Suc b')
      have "bit_length n \<le> Suc b' \<longleftrightarrow> bit_length (n div 2) \<le> b'"
        using False by (simp add: bit_length.simps [of n])
      also have "\<dots> \<longleftrightarrow> n div 2 < 2 ^ b'"
        using "1.IH" [OF False] .
      also have "\<dots> \<longleftrightarrow> n < 2 ^ Suc b'"
        by auto
      finally show ?thesis using Suc by simp
    qed
  qed
qed

lemma round_half_even_le: "round_half_even n d \<le> n div d + 1"
  by (simp add: round_half_even_def Let_def)

lemma round_to_double_is_double: "is_double (round_to_double s m e)"
proof -
  define k where "k = max (int (bit_length m) - 53) (- 1074 - e)"
  show ?thesis
  proof (cases "k \<le> 0")
    case True
    then have "bit_length m \<le> 53" and "- 1074 \<le> e"
      by (simp_all add: k_def)
    then have "m \<le> 2 ^ 53" and "- 1074 \<le> e"
      using bit_length_le [of m 53] by simp_all
    then show ?thesis
      using True by (simp add: round_to_double_def Let_def k_def [symmetric])
  next
    case False
    then have "bit_length m \<le> 53 + nat k"
      by (simp add: k_def)
    then have "m < 2 ^ 53 * 2 ^ nat k"
      using bit_length_le [of m "53 + nat k"] by (simp add: power_add)
    then have "m div 2 ^ nat k < 2 ^ 53"
      by (simp add: less_mult_imp_div_less)
    then have "round_half_even m (2 ^ nat k) \<le> 2 ^ 53"
      using round_half_even_le [of m "2 ^ nat k"] by simp
    moreover have "- 1074 \<le> e + k"
      by (simp add: k_def)
    ultimately show ?thesis
      using False by (simp add: round_to_double_def Let_def k_def [symmetric])
  qed
qed

lemma mul_100_is_double: "is_double (mul_100 x)"
  by (cases x) (simp_all add: mul_100_def round_to_double_is_double)

lemma round_to_double_exact:
  assumes "bit_length m \<le> 53" and "- 1074 \<le> e" and "int (bit_length m) + e \<le> 1024"
  shows "round_to_double s m e = Finite s m e"
  using assms by (simp add: round_to_double_def Let_def)

text \<open>
  \<open>c_0_873\<close> is a double, and the one nearest to 0.873: the doubles between 1/2 and 1
  are \<open>2^-53\<close> apart, and it is within \<open>2^-54\<close> of 873/1000.
\<close>

lemma c_0_873_nearest:
  "c_0_873 = Finite False 3931642474694443 (- 52) \<and>
   \<bar>2 * 3931642474694443 * 1000 - 873 * 2 ^ 53\<bar> \<le> (500 :: int)"
  by (simp add: c_0_873_def)

text \<open>
  Numerals are evaluated by rewriting: \<open>bit_length\<close> and \<open>decimal\<close> unfold on a
  numeral, never on a variable.
\<close>

lemma bit_length_numeral:
  "bit_length (numeral (Num.Bit0 n)) = Suc (bit_length (numeral n))"
  "bit_length (numeral (Num.Bit1 n)) = Suc (bit_length (numeral n))"
  "bit_length (numeral Num.One) = Suc 0"
  "bit_length (Suc 0) = Suc 0"
  "bit_length 0 = 0"
  by (subst bit_length.simps; simp)+

lemma decimal_numeral:
  "decimal (numeral k) =
     (if (numeral k :: nat) < 10 then [48 + numeral k]
      else decimal (numeral k div 10) @ [48 + numeral k mod 10])"
  "decimal 0 = [48]"
  "decimal (Suc 0) = [49]"
  by (subst decimal.simps; simp)+

lemmas float_eval =
  percent_def format_f_def mul_100_def round_to_double_def round_half_even_def scaled_def
  sign_str_def bit_length_numeral decimal_numeral Let_def lit_def

lemma round_half_even_nearest:
  assumes "0 < d"
  shows "2 * \<bar>int (round_half_even n d) * int d - int n\<bar> \<le> int d"
proof -
  have n: "int n = int (n div d) * int d + int (n mod d)"
    by (metis div_mult_mod_eq of_nat_add of_nat_mult)
  have r: "n mod d < d" using assms by simp
  show ?thesis
    using n r by (auto simp: round_half_even_def Let_def algebra_simps abs_if)
qed

lemma percent_0_873: "percent 1 c_0_873 = lit ''87.3%''" "percent 0 c_0_873 = lit ''87%''"
  by (simp_all add: c_0_873_def float_eval)

lemma title_cat: "title ascii_ucd (lit ''cat'') = lit ''Cat''"
  "title ascii_ucd (lit ''chair'') = lit ''Chair''"
  by (simp_all add: title_def ascii_ucd_def lower_ucs4_def ascii_upper_def ascii_lower_def lit_def)

lemma cat_objects:
  "objects_section ascii_ucd cat_result =
     Inr [ObjectCard 0 (lit ''Cat'') (lit ''95.0%''), ObjectCard 1 (lit ''Chair'') (lit ''80.0%'')]"
  by (simp add: objects_section_def cat_result_def truthy_def subscript_def bind_def title_cat)
     (simp add: float_eval)

lemma cat_tags:
  "tags_section cat_result =
     Inr [TagChips [(lit ''animal'', lit ''99%''), (lit ''furniture'', lit ''77%'')]]"
  by (simp add: tags_section_def cat_result_def truthy_def subscript_def bind_def float_eval)

lemma cat_confidence: "percent 1 (cap_confidence cat_caption) = lit ''91.0%''"
  by (simp add: cat_caption_def float_eval)

lemma cat_paragraph:
  "built_paragraph cat_caption cat_result =
   lit ''The AI thinks this image is about a cat sitting on a chair. It seems to show cat, chair. The scene relates to animal, furniture.''"
  by (simp add: built_paragraph_spec narrative_spec_def cat_caption_def cat_result_def
      get_default_def lit_def)

lemma cat_paragraph_words:
  "length (split (built_paragraph cat_caption cat_result)) \<le> 100"
  unfolding cat_paragraph by (simp add: lit_def split_Cons split_Nil isspace_def)

section \<open>The pipeline\<close>

text \<open>
  A buffer that \<open>normalize_upload\<close> returns is always what \<open>save_jpeg\<close> made of the
  converted image: no input, JPEG or not, is passed on as it came.
\<close>

lemma normalize_upload_reencodes:
  assumes "normalize_upload lib file = Inr image_bytes"
  shows "\<exists>img pil_img. image_open lib file = Inr img \<and> convert_rgb lib img = Inr pil_img \<and>
           save_jpeg lib pil_img = Inr image_bytes"
  using assms by (auto simp: normalize_upload_def bind_def split: sum.splits)

lemma normalize_upload_iff:
  "normalize_upload lib file = Inr out \<longleftrightarrow>
   (\<exists>img pil_img. image_open lib file = Inr img \<and> convert_rgb lib img = Inr pil_img \<and>
      save_jpeg lib pil_img = Inr out)"
  by (auto simp: normalize_upload_def bind_def split: sum.splits)

lemma normalize_open_fails:
  "image_open lib file = Inl err \<Longrightarrow> normalize_upload lib file = Inl err"
  by (simp add: normalize_upload_def bind_def)

lemma normalize_convert_fails:
  "image_open lib file = Inr img \<Longrightarrow> convert_rgb lib img = Inl err \<Longrightarrow>
   normalize_upload lib file = Inl err"
  by (simp add: normalize_upload_def bind_def)

text \<open>
  A file that opens but whose pixels do not decode ends the run at \<open>st.image\<close>
  (line 111), before the button is drawn.
\<close>

lemma app_image_undecodable:
  assumes "credentials e k = Some (endpoint, api_key)"
    and "image_open lib file = Inr img" and "convert_rgb lib img = Inl err"
  shows "app lib post db e k (Some file) button =
           \<lparr>shown = [Style, Header, StMarkdown (lit ''## Upload Image''),
                     StMarkdown (lit ''<div class=\"image-box\">'')],
            ending = Raised err\<rparr>"
  using assms by (simp add: app_def)

text \<open>The stand-in with formats and modes meets the contract.\<close>

lemma toy_codec_contract: "pil_contract toy_codec toy_mode_of toy_format_of"
  by (auto simp: pil_contract_def toy_codec_def toy_mode_of_def toy_format_of_def
      toy_format_def toy_mode_def)

section \<open>The claims\<close>

text \<open>
  C1. When the paragraph as built has more than 100 whitespace-delimited words, the
  paragraph shown is its first 100 words joined by single spaces with \<open>...\<close>
  appended: split at whitespace again it has exactly 100 words, the first 99 unchanged
  and the hundredth followed by the ellipsis. Only words are counted, and no sentence
  boundary is looked at.
\<close>

theorem paragraph_over_100_words_truncated:
  assumes "description result = Some d" and "captions d = Some (cap # rest)"
    and "100 < length (split (built_paragraph cap result))"
  shows "description_section result =
           Inr [CaptionCard (cap_text cap) (percent 1 (cap_confidence cap)),
                StMarkdown summary_heading,
                SummaryParagraph
                  (join (lit '' '') (take 100 (split (built_paragraph cap result))) @ lit ''...'')] \<and>
         split (join (lit '' '') (take 100 (split (built_paragraph cap result))) @ lit ''...'') =
           take 99 (split (built_paragraph cap result)) @
           [split (built_paragraph cap result) ! 99 @ lit ''...''] \<and>
         length (split (join (lit '' '') (take 100 (split (built_paragraph cap result))) @ lit ''...'')) = 100"
proof -
  let ?p = "built_paragraph cap result"
  let ?q = "join (lit '' '') (take 100 (split ?p)) @ lit ''...''"
  have a: "capped_paragraph cap result = ?q"
    using assms(3) by (simp add: capped_paragraph_def cap_words_def Let_def)
  have b: "split ?q = take 99 (split ?p) @ [split ?p ! 99 @ lit ''...'']"
    using split_cap_words [OF assms(3)] a by (simp add: capped_paragraph_def)
  have c: "length (split ?q) = 100"
    unfolding b using assms(3) by simp
  have s: "description_section result =
             Inr [CaptionCard (cap_text cap) (percent 1 (cap_confidence cap)),
                  StMarkdown summary_heading, SummaryParagraph ?q]"
    using description_section_caption [OF assms(1,2)] a by simp
  show ?thesis using s b c by blast
qed

theorem paragraph_over_100_words_truncated_witness:
  "description long_result = Some \<lparr>captions = Some [long_caption]\<rparr> \<and>
   captions \<lparr>captions = Some [long_caption]\<rparr> = Some (long_caption # []) \<and>
   100 < length (split (built_paragraph long_caption long_result)) \<and>
   length (split (join (lit '' '')
     (take 100 (split (built_paragraph long_caption long_result))) @ lit ''...'')) = 100"
proof -
  have d: "description long_result = Some \<lparr>captions = Some [long_caption]\<rparr>"
    by (simp add: long_result_def)
  have c: "captions \<lparr>captions = Some [long_caption]\<rparr> = Some (long_caption # [])"
    by simp
  show ?thesis
    using paragraph_over_100_words_truncated [OF d c long_paragraph_words]
      d c long_paragraph_words
    by blast
qed

text \<open>
  C2. For a response with at least one caption, the paragraph as built is the base
  sentence about the first caption's text, then the clause with the labels of the
  objects taken (if any) joined by commas, then the clause with the names of the tags
  taken (if any), all joined with a period and a space and closed by a period
  (\<open>narrative_spec\<close>); \<open>strip\<close> changes nothing. This is the paragraph shown
  unless it has more than 100 words. On the example of the specification the section
  shows exactly the paragraph the specification gives.
\<close>

theorem paragraph_built_in_fixed_order:
  assumes "description result = Some d" and "captions d = Some (cap # rest)"
  shows "built_paragraph cap result =
           narrative_spec (cap_text cap)
             (map obj_object (take 5 (get_default (objects result) [])))
             (map tag_name (take 5 (get_default (tags result) []))) \<and>
         (length (split (built_paragraph cap result)) \<le> 100 \<longrightarrow>
            description_section result =
              Inr [CaptionCard (cap_text cap) (percent 1 (cap_confidence cap)),
                   StMarkdown summary_heading,
                   SummaryParagraph
                     (narrative_spec (cap_text cap)
                        (map obj_object (take 5 (get_default (objects result) [])))
                        (map tag_name (take 5 (get_default (tags result) []))))]) \<and>
         description_section cat_result =
           Inr [CaptionCard (lit ''a cat sitting on a chair'') (lit ''91.0%''),
                StMarkdown summary_heading,
                SummaryParagraph (lit ''The AI thinks this image is about a cat sitting on a chair. It seems to show cat, chair. The scene relates to animal, furniture.'')]"
proof -
  have a: "built_paragraph cap result =
             narrative_spec (cap_text cap)
               (map obj_object (take 5 (get_default (objects result) [])))
               (map tag_name (take 5 (get_default (tags result) [])))"
    by (rule built_paragraph_spec)
  have k: "capped_paragraph c r = built_paragraph c r"
    if "length (split (built_paragraph c r)) \<le> 100" for c r
    using that by (simp add: capped_paragraph_def cap_words_def Let_def)
  have "description_section cat_result =
          Inr [CaptionCard (cap_text cat_caption) (percent 1 (cap_confidence cat_caption)),
               StMarkdown summary_heading,
               SummaryParagraph (capped_paragraph cat_caption cat_result)]"
    by (rule description_section_caption [of _ "\<lparr>captions = Some [cat_caption]\<rparr>" _ "[]"])
       (simp_all add: cat_result_def)
  then have e: "description_section cat_result =
          Inr [CaptionCard (lit ''a cat sitting on a chair'') (lit ''91.0%''),
               StMarkdown summary_heading,
               SummaryParagraph (lit ''The AI thinks this image is about a cat sitting on a chair. It seems to show cat, chair. The scene relates to animal, furniture.'')]"
    using k [OF cat_paragraph_words] cat_paragraph cat_confidence
    by (simp add: cat_caption_def)
  show ?thesis
    using a k [of cap result] description_section_caption [OF assms] e by simp
qed

theorem paragraph_built_in_fixed_order_witness:
  "description cat_result = Some \<lparr>captions = Some [cat_caption]\<rparr> \<and>
   captions \<lparr>captions = Some [cat_caption]\<rparr> = Some (cat_caption # []) \<and>
   length (split (built_paragraph cat_caption cat_result)) \<le> 100 \<and>
   built_paragraph cat_caption cat_result =
     narrative_spec (lit ''a cat sitting on a chair'') [lit ''cat'', lit ''chair'']
       [lit ''animal'', lit ''furniture''] \<and>
   description_section cat_result =
     Inr [CaptionCard (lit ''a cat sitting on a chair'') (percent 1 (cap_confidence cat_caption)),
          StMarkdown summary_heading,
          SummaryParagraph
            (narrative_spec (lit ''a cat sitting on a chair'') [lit ''cat'', lit ''chair'']
               [lit ''animal'', lit ''furniture''])] \<and>
   description_section cat_result =
     Inr [CaptionCard (lit ''a cat sitting on a chair'') (lit ''91.0%''),
          StMarkdown summary_heading,
          SummaryParagraph (lit ''The AI thinks this image is about a cat sitting on a chair. It seems to show cat, chair. The scene relates to animal, furniture.'')]"
proof -
  have d: "description cat_result = Some \<lparr>captions = Some [cat_caption]\<rparr>"
    by (simp add: cat_result_def)
  have c: "captions \<lparr>captions = Some [cat_caption]\<rparr> = Some (cat_caption # [])"
    by simp
  have o: "map obj_object (take 5 (get_default (objects cat_result) [])) = [lit ''cat'', lit ''chair'']"
    and t: "map tag_name (take 5 (get_default (tags cat_result) [])) = [lit ''animal'', lit ''furniture'']"
    and x: "cap_text cat_caption = lit ''a cat sitting on a chair''"
    by (simp_all add: cat_result_def cat_caption_def get_default_def)
  show ?thesis
    using paragraph_built_in_fixed_order [OF d c] d c cat_paragraph_words
    unfolding o t x by blast
qed

text \<open>
  C3. For a response with one caption or more, the card shows the text and the
  confidence of the first caption and the paragraph is built from it; replacing the
  captions behind the first by any others, of whatever confidence, changes nothing of
  what \<open>summarize\<close> returns.
\<close>

theorem only_first_caption_used:
  assumes "description result = Some d" and "captions d = Some (cap # rest)"
  shows "description_section result =
           Inr [CaptionCard (cap_text cap) (percent 1 (cap_confidence cap)),
                StMarkdown summary_heading,
                SummaryParagraph (capped_paragraph cap result)] \<and>
         (\<forall>others.
            summarize db (result\<lparr>description := Some (d\<lparr>captions := Some (cap # others)\<rparr>)\<rparr>) =
            summarize db result)"
proof -
  have a: "description_section result =
             Inr [CaptionCard (cap_text cap) (percent 1 (cap_confidence cap)),
                  StMarkdown summary_heading,
                  SummaryParagraph (capped_paragraph cap result)]"
    by (rule description_section_caption [OF assms])
  have b: "summarize db (result\<lparr>description := Some (d\<lparr>captions := Some (cap # others)\<rparr>)\<rparr>) =
           summarize db result" for others
  proof -
    let ?r = "result\<lparr>description := Some (d\<lparr>captions := Some (cap # others)\<rparr>)\<rparr>"
    have p: "capped_paragraph cap ?r = capped_paragraph cap result"
      by (simp add: capped_paragraph_def built_paragraph_def)
    have "description_section ?r = description_section result"
      using description_section_caption [of ?r "d\<lparr>captions := Some (cap # others)\<rparr>" cap others]
        a p by simp
    moreover have "objects_section db ?r = objects_section db result"
      by (simp add: objects_section_def)
    moreover have "tags_section ?r = tags_section result"
      by (simp add: tags_section_def)
    ultimately show ?thesis by (simp add: summarize_def)
  qed
  show ?thesis using a b by blast
qed

theorem only_first_caption_used_witness:
  "description two_captions = Some \<lparr>captions = Some
     [cat_caption, \<lparr>cap_text = lit ''a dog'', cap_confidence = Finite False 4458563631096791 (- 52)\<rparr>]\<rparr> \<and>
   description_section two_captions =
     Inr [CaptionCard (lit ''a cat sitting on a chair'') (lit ''91.0%''),
          StMarkdown summary_heading,
          SummaryParagraph (capped_paragraph cat_caption two_captions)] \<and>
   summarize ascii_ucd (two_captions\<lparr>description := Some \<lparr>captions = Some [cat_caption]\<rparr>\<rparr>) =
   summarize ascii_ucd two_captions"
proof -
  let ?d = "\<lparr>captions = Some
     [cat_caption, \<lparr>cap_text = lit ''a dog'', cap_confidence = Finite False 4458563631096791 (- 52)\<rparr>]\<rparr>"
  have d: "description two_captions = Some ?d"
    by (simp add: two_captions_def)
  have c: "captions ?d = Some (cat_caption #
      [\<lparr>cap_text = lit ''a dog'', cap_confidence = Finite False 4458563631096791 (- 52)\<rparr>])"
    by simp
  have t: "cap_text cat_caption = lit ''a cat sitting on a chair''"
    by (simp add: cat_caption_def)
  show ?thesis
    using only_first_caption_used [OF d c, of ascii_ucd] d t cat_confidence
    by simp
qed

text \<open>
  C4. The paragraph depends on the objects and the tags through the labels of the
  first five objects and the names of the first five tags only, in the order of the
  response: two responses that agree on these give the same paragraph, whatever their
  further entries and whatever the confidences.
\<close>

theorem paragraph_uses_first_five:
  assumes "map obj_object (take 5 (get_default (objects r) [])) =
           map obj_object (take 5 (get_default (objects r') []))"
    and "map tag_name (take 5 (get_default (tags r) [])) =
         map tag_name (take 5 (get_default (tags r') []))"
  shows "capped_paragraph cap r = capped_paragraph cap r' \<and>
         built_paragraph cap r =
           narrative_spec (cap_text cap)
             (map obj_object (take 5 (get_default (objects r) [])))
             (map tag_name (take 5 (get_default (tags r) [])))"
  using assms by (simp add: capped_paragraph_def built_paragraph_spec)

theorem paragraph_uses_first_five_witness:
  "map obj_object (take 5 (get_default (objects (six_objects (lit ''door''))) [])) =
   map obj_object (take 5 (get_default (objects (six_objects (lit ''window''))) [])) \<and>
   map tag_name (take 5 (get_default (tags (six_objects (lit ''door''))) [])) =
   map tag_name (take 5 (get_default (tags (six_objects (lit ''window''))) [])) \<and>
   capped_paragraph cat_caption (six_objects (lit ''door'')) =
   capped_paragraph cat_caption (six_objects (lit ''window'')) \<and>
   built_paragraph cat_caption (six_objects (lit ''door'')) =
     lit ''The AI thinks this image is about a cat sitting on a chair. It seems to show cat, chair, rug, lamp, wall. The scene relates to animal, furniture.''"
proof -
  have o: "map obj_object (take 5 (get_default (objects (six_objects (lit ''door''))) [])) =
           map obj_object (take 5 (get_default (objects (six_objects (lit ''window''))) []))"
    by (simp add: six_objects_def get_default_def)
  have t: "map tag_name (take 5 (get_default (tags (six_objects (lit ''door''))) [])) =
           map tag_name (take 5 (get_default (tags (six_objects (lit ''window''))) []))"
    by (simp add: six_objects_def)
  have e: "narrative_spec (cap_text cat_caption)
             (map obj_object (take 5 (get_default (objects (six_objects (lit ''door''))) [])))
             (map tag_name (take 5 (get_default (tags (six_objects (lit ''door''))) []))) =
           lit ''The AI thinks this image is about a cat sitting on a chair. It seems to show cat, chair, rug, lamp, wall. The scene relates to animal, furniture.''"
    by (simp add: narrative_spec_def six_objects_def cat_result_def cat_caption_def
        get_default_def lit_def)
  show ?thesis
    using paragraph_uses_first_five [OF o t, of cat_caption] o t e by simp
qed

text \<open>
  C5. The object listing has one card for each object of the whole list, in the order
  of the list, with the label in title case and the confidence as a percentage with
  one digit after the point; the tag listing has one pair for each tag of the whole
  list, in order, with the name and the confidence as a percentage with no digit
  after the point. The double nearest to 0.873 is shown as \<open>87.3%\<close> for an object
  and as \<open>87%\<close> for a tag.
\<close>

theorem object_and_tag_listings:
  "(objects result = Some objs \<and> objs \<noteq> [] \<longrightarrow>
      objects_section db result =
        Inr (map (\<lambda>(i, obj). ObjectCard (i mod 2) (title db (obj_object obj))
                               (percent 1 (obj_confidence obj)))
               (enumerate 0 objs))) \<and>
   (tags result = Some tgs \<and> tgs \<noteq> [] \<longrightarrow>
      tags_section result =
        Inr [TagChips (map (\<lambda>t. (tag_name t, percent 0 (tag_confidence t))) tgs)]) \<and>
   (mul_100 c = Finite s m e \<longrightarrow>
      percent 1 c =
        sign_str s @ decimal (scaled 1 m e div 10) @ lit ''.'' @ [48 + scaled 1 m e mod 10] @ lit ''%'' \<and>
      percent 0 c = sign_str s @ decimal (scaled 0 m e) @ lit ''%'') \<and>
   percent 1 c_0_873 = lit ''87.3%'' \<and> percent 0 c_0_873 = lit ''87%''"
proof -
  have "percent 1 c =
          sign_str s @ decimal (scaled 1 m e div 10) @ lit ''.'' @ [48 + scaled 1 m e mod 10] @ lit ''%''"
    and "percent 0 c = sign_str s @ decimal (scaled 0 m e) @ lit ''%''"
    if "mul_100 c = Finite s m e"
    using that by (simp_all add: percent_def format_f_def Let_def)
  then show ?thesis
    using objects_section_listing [of result objs db] tags_section_listing [of result tgs]
      percent_0_873
    by blast
qed

theorem object_and_tag_listings_witness:
  "objects cat_result = Some (the (objects cat_result)) \<and> the (objects cat_result) \<noteq> [] \<and>
   tags cat_result = Some (the (tags cat_result)) \<and> the (tags cat_result) \<noteq> [] \<and>
   mul_100 c_0_873 = Finite False 6143191366710067 (- 46) \<and>
   objects_section ascii_ucd cat_result =
     Inr (map (\<lambda>(i, obj). ObjectCard (i mod 2) (title ascii_ucd (obj_object obj))
                            (percent 1 (obj_confidence obj)))
            (enumerate 0 (the (objects cat_result)))) \<and>
   objects_section ascii_ucd cat_result =
     Inr [ObjectCard 0 (lit ''Cat'') (lit ''95.0%''), ObjectCard 1 (lit ''Chair'') (lit ''80.0%'')] \<and>
   tags_section cat_result =
     Inr [TagChips (map (\<lambda>t. (tag_name t, percent 0 (tag_confidence t))) (the (tags cat_result)))] \<and>
   tags_section cat_result =
     Inr [TagChips [(lit ''animal'', lit ''99%''), (lit ''furniture'', lit ''77%'')]] \<and>
   percent 1 c_0_873 = lit ''87.3%'' \<and> percent 0 c_0_873 = lit ''87%''"
proof -
  have m: "mul_100 c_0_873 = Finite False 6143191366710067 (- 46)"
    by (simp add: c_0_873_def float_eval)
  have o: "objects cat_result = Some (the (objects cat_result)) \<and> the (objects cat_result) \<noteq> []"
    and t: "tags cat_result = Some (the (tags cat_result)) \<and> the (tags cat_result) \<noteq> []"
    by (simp_all add: cat_result_def)
  show ?thesis
    using object_and_tag_listings
      [of cat_result "the (objects cat_result)" ascii_ucd "the (tags cat_result)"
          c_0_873 False 6143191366710067 "- 46"]
      m o t cat_objects cat_tags
    by blast
qed

text \<open>
  C6. For a response whose list of captions is empty, the description section is the
  warning \<open>No description detected\<close>: \<open>summarize\<close> returns (it raises nothing),
  and the message is not the empty string.
\<close>

theorem empty_captions_no_description:
  assumes "description result = Some d" and "captions d = Some []"
  shows "description_section result = Inr [StWarning (lit ''No description detected'')] \<and>
         (\<exists>os ts. summarize db result =
            Inr (layout [StWarning (lit ''No description detected'')] os ts)) \<and>
         lit ''No description detected'' \<noteq> []"
proof -
  have a: "description_section result = Inr [StWarning (lit ''No description detected'')]"
    using assms by (simp add: description_section_none truthy_def get_default_def)
  have b: "\<exists>os ts. summarize db result =
            Inr (layout [StWarning (lit ''No description detected'')] os ts)"
    using a objects_section_total [of db result] tags_section_total [of result]
      summarize_layout [OF a] by blast
  show ?thesis using a b by (simp add: lit_def)
qed

theorem empty_captions_no_description_witness:
  "description (cat_result\<lparr>description := Some \<lparr>captions = Some []\<rparr>\<rparr>) = Some \<lparr>captions = Some []\<rparr> \<and>
   description_section (cat_result\<lparr>description := Some \<lparr>captions = Some []\<rparr>\<rparr>) =
     Inr [StWarning (lit ''No description detected'')]"
  using empty_captions_no_description
    [of "cat_result\<lparr>description := Some \<lparr>captions = Some []\<rparr>\<rparr>" "\<lparr>captions = Some []\<rparr>"]
  by simp

text \<open>
  C7. Let Pillow keep its contract (\<open>pil_contract\<close>). For every file that opens as a
  JPEG or PNG image, of any mode, \<open>normalize_upload\<close> returns a buffer: the image
  converted to mode RGB and saved as JPEG. The buffer opens again as a JPEG image of
  mode RGB and its pixels decode. And whatever the format of the input, JPEG
  included, a buffer is returned exactly when it is what \<open>save_jpeg\<close> made of the
  converted image: the input is never passed on as it came.
\<close>

theorem normalize_reencodes_as_rgb_jpeg:
  assumes "pil_contract lib mode_of format_of"
    and "image_open lib file = Inr img"
    and "format_of img = JPEG \<or> format_of img = PNG"
  shows "(\<exists>pil_img out decoded pixels.
            convert_rgb lib img = Inr pil_img \<and> mode_of pil_img = RGB \<and>
            save_jpeg lib pil_img = Inr out \<and>
            normalize_upload lib file = Inr out \<and>
            image_open lib out = Inr decoded \<and>
            format_of decoded = JPEG \<and> mode_of decoded = RGB \<and>
            convert_rgb lib decoded = Inr pixels \<and> mode_of pixels = RGB) \<and>
         (\<forall>out. normalize_upload lib file = Inr out \<longleftrightarrow>
            (\<exists>pil_img. convert_rgb lib img = Inr pil_img \<and> save_jpeg lib pil_img = Inr out))"
proof -
  obtain pil_img where c: "convert_rgb lib img = Inr pil_img" and m: "mode_of pil_img = RGB"
    using assms(1,3) unfolding pil_contract_def by blast
  obtain out decoded pixels where s: "save_jpeg lib pil_img = Inr out"
    and o: "image_open lib out = Inr decoded"
    and d: "format_of decoded = JPEG" "mode_of decoded = RGB"
    and p: "convert_rgb lib decoded = Inr pixels" "mode_of pixels = RGB"
    using assms(1) m unfolding pil_contract_def by blast
  have n: "normalize_upload lib file = Inr out"
    using assms(2) c s by (simp add: normalize_upload_def bind_def)
  have i: "normalize_upload lib file = Inr out' \<longleftrightarrow>
           (\<exists>pil_img. convert_rgb lib img = Inr pil_img \<and> save_jpeg lib pil_img = Inr out')"
    for out'
    using assms(2) by (auto simp: normalize_upload_iff)
  show ?thesis
    using c m s n o d p i by blast
qed

theorem normalize_reencodes_as_rgb_jpeg_witness:
  "pil_contract toy_codec toy_mode_of toy_format_of \<and>
   image_open toy_codec [1, 3, 9, 9] = Inr (PNG, RGBA, [9, 9]) \<and>
   (toy_format_of (PNG, RGBA, [9, 9]) = JPEG \<or> toy_format_of (PNG, RGBA, [9, 9]) = PNG) \<and>
   (\<exists>pil_img out decoded pixels.
      convert_rgb toy_codec (PNG, RGBA, [9, 9]) = Inr pil_img \<and> toy_mode_of pil_img = RGB \<and>
      save_jpeg toy_codec pil_img = Inr out \<and>
      normalize_upload toy_codec [1, 3, 9, 9] = Inr out \<and>
      image_open toy_codec out = Inr decoded \<and>
      toy_format_of decoded = JPEG \<and> toy_mode_of decoded = RGB \<and>
      convert_rgb toy_codec decoded = Inr pixels \<and> toy_mode_of pixels = RGB) \<and>
   normalize_upload toy_codec [1, 3, 9, 9] = Inr [0, 4, 8, 8] \<and>
   image_open toy_codec [0, 4, 8, 8] = Inr (JPEG, RGB, [8, 8]) \<and>
   image_open toy_codec [0, 4, 9, 9] = Inr (JPEG, RGB, [9, 9]) \<and>
   normalize_upload toy_codec [0, 4, 9, 9] = Inr [0, 4, 8, 8]"
proof -
  have o: "image_open toy_codec [1, 3, 9, 9] = Inr (PNG, RGBA, [9, 9])"
    by (simp add: toy_codec_def toy_format_def toy_mode_def)
  have f: "toy_format_of (PNG, RGBA, [9, 9]) = JPEG \<or> toy_format_of (PNG, RGBA, [9, 9]) = PNG"
    by (simp add: toy_format_of_def)
  have n: "normalize_upload toy_codec [1, 3, 9, 9] = Inr [0, 4, 8, 8]"
    "normalize_upload toy_codec [0, 4, 9, 9] = Inr [0, 4, 8, 8]"
    by (simp_all add: normalize_upload_def bind_def toy_codec_def toy_format_def toy_mode_def)
  have r: "image_open toy_codec [0, 4, 8, 8] = Inr (JPEG, RGB, [8, 8])"
    "image_open toy_codec [0, 4, 9, 9] = Inr (JPEG, RGB, [9, 9])"
    by (simp_all add: toy_codec_def toy_format_def toy_mode_def)
  show ?thesis
    using normalize_reencodes_as_rgb_jpeg [OF toy_codec_contract o f] toy_codec_contract o f n r
    by blast
qed

text \<open>
  C8. When Pillow cannot open the uploaded bytes as an image, or cannot decode what
  it opened, \<open>normalize_upload\<close> raises Pillow's exception (the DecodeError of the
  specification) and returns no buffer; the
  run ends with that exception, whatever the service would have answered, and nothing
  of an analysis is on the page. When it is \<open>Image.open\<close> that fails, the script
  already ends at line 108.
\<close>

theorem undecodable_upload_raises:
  assumes "image_open lib file = Inl err \<or>
           (\<exists>img. image_open lib file = Inr img \<and> convert_rgb lib img = Inl err)"
  shows "normalize_upload lib file = Inl err \<and>
         analyze lib post db endpoint api_key file = \<lparr>shown = [], ending = Raised err\<rparr> \<and>
         (image_open lib file = Inl err \<and> credentials e k = Some (endpoint, api_key) \<longrightarrow>
            app lib post db e k (Some file) button =
              \<lparr>shown = [Style, Header, StMarkdown (lit ''## Upload Image'')],
               ending = Raised err\<rparr>)"
proof -
  have n: "normalize_upload lib file = Inl err"
    using assms by (auto simp: normalize_upload_def bind_def)
  then have a: "analyze lib post db endpoint api_key file = \<lparr>shown = [], ending = Raised err\<rparr>"
    by (simp add: analyze_def)
  have "app lib post db e k (Some file) button =
          \<lparr>shown = [Style, Header, StMarkdown (lit ''## Upload Image'')], ending = Raised err\<rparr>"
    if "image_open lib file = Inl err" and "credentials e k = Some (endpoint, api_key)"
    using that by (simp add: app_def)
  then show ?thesis using n a by blast
qed

theorem undecodable_upload_raises_witness:
  "image_open toy_pil [] = Inl UnidentifiedImageError \<and>
   credentials (Some (lit ''https://x/'')) (Some (lit ''key'')) = Some (lit ''https://x/'', lit ''key'') \<and>
   normalize_upload toy_pil [] = Inl UnidentifiedImageError \<and>
   analyze toy_pil (\<lambda>r. Inr denied) ascii_ucd (lit ''https://x/'') (lit ''key'') [] =
     \<lparr>shown = [], ending = Raised UnidentifiedImageError\<rparr> \<and>
   app toy_pil (\<lambda>r. Inr denied) ascii_ucd (Some (lit ''https://x/'')) (Some (lit ''key'')) (Some []) True =
     \<lparr>shown = [Style, Header, StMarkdown (lit ''## Upload Image'')],
      ending = Raised UnidentifiedImageError\<rparr>"
proof -
  have o: "image_open toy_pil [] = Inl UnidentifiedImageError"
    by (simp add: toy_pil_def)
  have c: "credentials (Some (lit ''https://x/'')) (Some (lit ''key'')) =
           Some (lit ''https://x/'', lit ''key'')"
    by (simp add: credentials_def lit_def)
  show ?thesis
    using undecodable_upload_raises
      [of toy_pil "[]" UnidentifiedImageError "\<lambda>r. Inr denied" ascii_ucd "lit ''https://x/''"
          "lit ''key''" "Some (lit ''https://x/'')" "Some (lit ''key'')" True]
      o c
    by blast
qed

text \<open>
  C9. When the service answers with a status other than 200, the run shows the body of
  the response as the error text, unchanged, and stops: the body is not parsed, nothing
  is summarized, and nothing else of the analysis is on the page.
\<close>

theorem non_200_stops_with_body:
  assumes "normalize_upload lib file = Inr image_bytes"
    and "post (build_request endpoint api_key image_bytes) = Inr response"
    and "status_code response \<noteq> 200"
  shows "analyze lib post db endpoint api_key file =
           \<lparr>shown = [StError (response_text response)], ending = Stopped\<rparr> \<and>
         (credentials e k = Some (endpoint, api_key) \<longrightarrow>
            app lib post db e k (Some file) True =
              \<lparr>shown = [Style, Header, StMarkdown (lit ''## Upload Image''),
                        StMarkdown (lit ''<div class=\"image-box\">''), StImage,
                        StMarkdown (lit ''</div>''), StMarkdown (lit ''<br>''),
                        StError (response_text response)],
               ending = Stopped\<rparr>)"
proof -
  have a: "analyze lib post db endpoint api_key file =
             \<lparr>shown = [StError (response_text response)], ending = Stopped\<rparr>"
    using assms by (simp add: analyze_def)
  obtain img pil_img where i: "image_open lib file = Inr img"
    and c: "convert_rgb lib img = Inr pil_img"
    using normalize_upload_reencodes [OF assms(1)] by blast
  have "app lib post db e k (Some file) True =
          \<lparr>shown = [Style, Header, StMarkdown (lit ''## Upload Image''),
                    StMarkdown (lit ''<div class=\"image-box\">''), StImage,
                    StMarkdown (lit ''</div>''), StMarkdown (lit ''<br>''),
                    StError (response_text response)],
           ending = Stopped\<rparr>"
    if "credentials e k = Some (endpoint, api_key)"
    using that i c a by (simp add: app_def Let_def)
  then show ?thesis using a by blast
qed

theorem non_200_stops_with_body_witness:
  "normalize_upload toy_pil [255, 216] = Inr [255, 216] \<and>
   (\<lambda>r. Inr denied) (build_request (lit ''https://x/'') (lit ''key'') [255, 216]) = Inr denied \<and>
   status_code denied \<noteq> 200 \<and>
   credentials (Some (lit ''https://x/'')) (Some (lit ''key'')) = Some (lit ''https://x/'', lit ''key'') \<and>
   analyze toy_pil (\<lambda>r. Inr denied) ascii_ucd (lit ''https://x/'') (lit ''key'') [255, 216] =
     \<lparr>shown = [StError (lit ''Access denied'')], ending = Stopped\<rparr> \<and>
   app toy_pil (\<lambda>r. Inr denied) ascii_ucd (Some (lit ''https://x/'')) (Some (lit ''key''))
       (Some [255, 216]) True =
     \<lparr>shown = [Style, Header, StMarkdown (lit ''## Upload Image''),
               StMarkdown (lit ''<div class=\"image-box\">''), StImage,
               StMarkdown (lit ''</div>''), StMarkdown (lit ''<br>''),
               StError (lit ''Access denied'')],
      ending = Stopped\<rparr>"
proof -
  have n: "normalize_upload toy_pil [255, 216] = Inr [255, 216]"
    by (simp add: normalize_upload_def toy_pil_def bind_def)
  have p: "(\<lambda>r. Inr denied) (build_request (lit ''https://x/'') (lit ''key'') [255, 216]) = Inr denied"
    by simp
  have s: "status_code denied \<noteq> 200"
    by (simp add: denied_def)
  have x: "response_text denied = lit ''Access denied''"
    by (simp add: denied_def)
  have c: "credentials (Some (lit ''https://x/'')) (Some (lit ''key'')) =
           Some (lit ''https://x/'', lit ''key'')"
    by (simp add: credentials_def lit_def)
  show ?thesis
    using non_200_stops_with_body [of toy_pil "[255, 216]" "[255, 216]" "\<lambda>r. Inr denied"
        "lit ''https://x/''" "lit ''key''" denied ascii_ucd "Some (lit ''https://x/'')"
        "Some (lit ''key'')", OF n p s] n p s c
    unfolding x by blast
qed

text \<open>
  C10. \<open>summarize\<close> returns for every response, whichever of the three keys are
  missing; a missing key gives what an empty list gives (\<open>fill_absent\<close>): the
  warning \<open>No description detected\<close>, \<open>No objects detected\<close> or
  \<open>No tags detected\<close>.
\<close>

theorem summarize_total_absent_fields:
  "(\<exists>d os ts. summarize db result = Inr (layout d os ts)) \<and>
   summarize db result = summarize db (fill_absent result) \<and>
   (description result = None \<longrightarrow>
      description_section result = Inr [StWarning (lit ''No description detected'')]) \<and>
   (objects result = None \<longrightarrow>
      objects_section db result = Inr [StWarning (lit ''No objects detected'')]) \<and>
   (tags result = None \<longrightarrow>
      tags_section result = Inr [StWarning (lit ''No tags detected'')])"
proof -
  have d: "description_section (fill_absent result) = description_section result"
    by (simp add: description_section_def fill_absent_def capped_paragraph_def
        built_paragraph_def get_default_def truthy_def subscript_def bind_def
        split: option.splits)
  have o: "objects_section db (fill_absent result) = objects_section db result"
    by (simp add: objects_section_def fill_absent_def truthy_def subscript_def bind_def
        split: option.splits)
  have t: "tags_section (fill_absent result) = tags_section result"
    by (simp add: tags_section_def fill_absent_def truthy_def subscript_def bind_def
        split: option.splits)
  have e: "summarize db result = summarize db (fill_absent result)"
    by (simp add: summarize_def d o t)
  have "description_section result = Inr [StWarning (lit ''No description detected'')]"
    if "description result = None"
    using that by (simp add: description_section_none truthy_def get_default_def)
  moreover have "objects_section db result = Inr [StWarning (lit ''No objects detected'')]"
    if "objects result = None"
    using that by (simp add: objects_section_def truthy_def)
  moreover have "tags_section result = Inr [StWarning (lit ''No tags detected'')]"
    if "tags result = None"
    using that by (simp add: tags_section_def truthy_def)
  ultimately show ?thesis
    using summarize_total [of db result] e by blast
qed

theorem summarize_total_absent_fields_witness:
  "description empty_result = None \<and> objects empty_result = None \<and> tags empty_result = None \<and>
   summarize ascii_ucd empty_result =
     Inr (layout [StWarning (lit ''No description detected'')]
                 [StWarning (lit ''No objects detected'')]
                 [StWarning (lit ''No tags detected'')])"
proof -
  have n: "description empty_result = None" "objects empty_result = None" "tags empty_result = None"
    by (simp_all add: empty_result_def)
  show ?thesis
    using summarize_total_absent_fields [of ascii_ucd empty_result] n
      summarize_layout [of empty_result _ ascii_ucd]
    by simp
qed

end
